theory Spec2Isabelle
  imports Complex_Main "HOL-Library.Char_ord" "HOL-Library.List_Lexorder" "HOL-Library.Multiset"
begin

section \<open>JavaScript values used by the expense screen\<close>

text \<open>
  \<open>ExpenseScreen\<close> is a React Native component over an SQLite table. The component
  with the edit session, the filters and the totals is the subject here; the file
  \<open>ExpenseScreen.js\<close> holds an earlier state of it, with the same \<open>getWeekStart\<close>,
  \<open>getMonthStart\<close>, \<open>loadExpenses\<close> and \<open>deleteExpense\<close>.

  Its numbers are JavaScript numbers: \<open>NaN\<close>, the two infinities and the finite
  values. Finite values are kept exact (as reals); the rounding of binary64 arithmetic is
  outside this development. Strings are sequences of code units below 256.
\<close>

datatype jsnum = NaN | PosInf | NegInf | Fin real

fun isNaN :: "jsnum \<Rightarrow> bool" where
  "isNaN NaN = True"
| "isNaN _ = False"

text \<open>\<open>x <= 0\<close>: every comparison with \<open>NaN\<close> is false.\<close>

fun le_zero :: "jsnum \<Rightarrow> bool" where
  "le_zero NaN = False"
| "le_zero PosInf = False"
| "le_zero NegInf = True"
| "le_zero (Fin r) = (r \<le> 0)"

fun js_neg :: "jsnum \<Rightarrow> jsnum" where
  "js_neg NaN = NaN"
| "js_neg PosInf = NegInf"
| "js_neg NegInf = PosInf"
| "js_neg (Fin r) = Fin (- r)"

text \<open>\<open>a + b\<close> on numbers.\<close>

fun js_add :: "jsnum \<Rightarrow> jsnum \<Rightarrow> jsnum" where
  "js_add NaN _ = NaN"
| "js_add _ NaN = NaN"
| "js_add PosInf NegInf = NaN"
| "js_add NegInf PosInf = NaN"
| "js_add PosInf _ = PosInf"
| "js_add _ PosInf = PosInf"
| "js_add NegInf _ = NegInf"
| "js_add _ NegInf = NegInf"
| "js_add (Fin a) (Fin b) = Fin (a + b)"

definition js_sub :: "jsnum \<Rightarrow> jsnum \<Rightarrow> jsnum" where
  "js_sub a b = js_add a (js_neg b)"

text \<open>Truthiness of a number: \<open>0\<close> and \<open>NaN\<close> are falsy.\<close>

fun truthy_num :: "jsnum \<Rightarrow> bool" where
  "truthy_num NaN = False"
| "truthy_num (Fin r) = (r \<noteq> 0)"
| "truthy_num _ = True"

subsection \<open>Strings: \<open>trim\<close> and \<open>parseFloat\<close>\<close>

text \<open>White space and line terminators among the code units below 256.\<close>

definition isWhiteSpace :: "char \<Rightarrow> bool" where
  "isWhiteSpace c = (c \<in> set [CHR 0x09, CHR 0x0A, CHR 0x0B, CHR 0x0C, CHR 0x0D, CHR 0x20, CHR 0xA0])"

definition trimStart :: "string \<Rightarrow> string" where
  "trimStart s = dropWhile isWhiteSpace s"

definition trim :: "string \<Rightarrow> string" where
  "trim s = rev (dropWhile isWhiteSpace (rev (dropWhile isWhiteSpace s)))"

definition isDigit :: "char \<Rightarrow> bool" where
  "isDigit c = (CHR ''0'' \<le> c \<and> c \<le> CHR ''9'')"

definition digitVal :: "char \<Rightarrow> int" where
  "digitVal c = of_char c - 48"

definition digitsVal :: "string \<Rightarrow> int" where
  "digitsVal ds = foldl (\<lambda>n c. 10 * n + digitVal c) 0 ds"

text \<open>
  The exponent part of a decimal literal: \<open>e\<close> or \<open>E\<close>, an optional sign and at least
  one digit. A malformed exponent is not part of the longest literal prefix and counts
  as exponent 0.
\<close>

definition exponentPart :: "string \<Rightarrow> int" where
  "exponentPart s =
     (case s of
        [] \<Rightarrow> 0
      | c # r \<Rightarrow>
          if c = CHR ''e'' \<or> c = CHR ''E'' then
            (case r of
               [] \<Rightarrow> 0
             | d # r' \<Rightarrow>
                 if d = CHR ''-'' then
                   (if takeWhile isDigit r' = [] then 0 else - digitsVal (takeWhile isDigit r'))
                 else if d = CHR ''+'' then
                   (if takeWhile isDigit r' = [] then 0 else digitsVal (takeWhile isDigit r'))
                 else
                   (if takeWhile isDigit r = [] then 0 else digitsVal (takeWhile isDigit r)))
          else 0)"

definition pow10 :: "int \<Rightarrow> real" where
  "pow10 e = (if 0 \<le> e then 10 ^ nat e else 1 / 10 ^ nat (- e))"

text \<open>
  \<open>StrUnsignedDecimalLiteral\<close>: \<open>Infinity\<close>, or digits with an optional fraction and
  exponent, or a fraction that starts with the point. No such prefix gives \<open>NaN\<close>.
\<close>

definition unsignedLiteral :: "string \<Rightarrow> jsnum" where
  "unsignedLiteral s =
     (if take 8 s = ''Infinity'' then PosInf
      else
        let ip = takeWhile isDigit s; r = dropWhile isDigit s in
        (case r of
           c # r' \<Rightarrow>
             if c = CHR ''.'' then
               (let fp = takeWhile isDigit r'; r'' = dropWhile isDigit r' in
                if ip = [] \<and> fp = [] then NaN
                else Fin ((of_int (digitsVal ip) + of_int (digitsVal fp) / 10 ^ length fp)
                          * pow10 (exponentPart r'')))
             else if ip = [] then NaN
             else Fin (of_int (digitsVal ip) * pow10 (exponentPart r))
         | [] \<Rightarrow> if ip = [] then NaN else Fin (of_int (digitsVal ip))))"

definition parseFloat :: "string \<Rightarrow> jsnum" where
  "parseFloat s =
     (case trimStart s of
        [] \<Rightarrow> NaN
      | c # r \<Rightarrow>
          if c = CHR ''-'' then js_neg (unsignedLiteral r)
          else if c = CHR ''+'' then unsignedLiteral r
          else unsignedLiteral (c # r))"


section \<open>The \<open>Date\<close> operations the screen calls\<close>

text \<open>
  A \<open>Date\<close> holds a time value: milliseconds since 1970-01-01T00:00:00Z. The device
  clock gives the current time value and the local time zone, here a fixed offset from
  UTC in minutes (east positive); every \<open>new Date()\<close> of one handler reads the same
  instant.
\<close>

record clock =
  now_ms :: int
  tz_offset_min :: int

definition msPerDay :: int where
  "msPerDay = 86400000"

definition Day :: "int \<Rightarrow> int" where
  "Day t = t div msPerDay"

definition TimeWithinDay :: "int \<Rightarrow> int" where
  "TimeWithinDay t = t mod msPerDay"

definition WeekDay :: "int \<Rightarrow> int" where
  "WeekDay t = (Day t + 4) mod 7"

definition DayFromYear :: "int \<Rightarrow> int" where
  "DayFromYear y = 365 * (y - 1970) + (y - 1969) div 4 - (y - 1901) div 100 + (y - 1601) div 400"

definition InLeapYear :: "int \<Rightarrow> bool" where
  "InLeapYear y = (y mod 4 = 0 \<and> (y mod 100 \<noteq> 0 \<or> y mod 400 = 0))"

text \<open>
  The year of a day number: the largest \<open>y\<close> with \<open>DayFromYear y \<le> d\<close>, found from
  the estimate over the 400-year cycle of 146097 days, corrected by one year.
\<close>

definition YearFromDay :: "int \<Rightarrow> int" where
  "YearFromDay d =
     (let y = 1970 + (d * 400) div 146097 in
      if d < DayFromYear y then y - 1
      else if DayFromYear (y + 1) \<le> d then y + 1
      else y)"

text \<open>Days of the year before month \<open>m\<close> (0 is January).\<close>

definition DaysBeforeMonth :: "bool \<Rightarrow> int \<Rightarrow> int" where
  "DaysBeforeMonth leap m =
     (if m \<le> 0 then 0
      else if m = 1 then 31
      else [59, 90, 120, 151, 181, 212, 243, 273, 304, 334] ! nat (m - 2) + (if leap then 1 else 0))"

definition MonthFromDayInYear :: "bool \<Rightarrow> int \<Rightarrow> int" where
  "MonthFromDayInYear leap k =
     int (length (filter (\<lambda>m. DaysBeforeMonth leap m \<le> k) [1, 2, 3, 4, 5, 6, 7, 8, 9, 10, 11]))"

definition YearFromTime :: "int \<Rightarrow> int" where
  "YearFromTime t = YearFromDay (Day t)"

definition DayWithinYear :: "int \<Rightarrow> int" where
  "DayWithinYear t = Day t - DayFromYear (YearFromTime t)"

definition MonthFromTime :: "int \<Rightarrow> int" where
  "MonthFromTime t = MonthFromDayInYear (InLeapYear (YearFromTime t)) (DayWithinYear t)"

definition DateFromTime :: "int \<Rightarrow> int" where
  "DateFromTime t =
     DayWithinYear t - DaysBeforeMonth (InLeapYear (YearFromTime t)) (MonthFromTime t) + 1"

text \<open>\<open>MakeDay\<close> for a month in 0..11, as \<open>setDate\<close> calls it; the day may lie outside the month.\<close>

definition MakeDay :: "int \<Rightarrow> int \<Rightarrow> int \<Rightarrow> int" where
  "MakeDay y m dt = DayFromYear y + DaysBeforeMonth (InLeapYear y) m + dt - 1"

definition MakeDate :: "int \<Rightarrow> int \<Rightarrow> int" where
  "MakeDate day time = day * msPerDay + time"

definition LocalTime :: "clock \<Rightarrow> int \<Rightarrow> int" where
  "LocalTime clk t = t + tz_offset_min clk * 60000"

definition UTC :: "clock \<Rightarrow> int \<Rightarrow> int" where
  "UTC clk t = t - tz_offset_min clk * 60000"

text \<open>\<open>getDay\<close>, \<open>getDate\<close> and \<open>setDate\<close> work on local time.\<close>

definition getDay :: "clock \<Rightarrow> int \<Rightarrow> int" where
  "getDay clk t = WeekDay (LocalTime clk t)"

definition getDate :: "clock \<Rightarrow> int \<Rightarrow> int" where
  "getDate clk t = DateFromTime (LocalTime clk t)"

definition setDate :: "clock \<Rightarrow> int \<Rightarrow> int \<Rightarrow> int" where
  "setDate clk t dt =
     (let lt = LocalTime clk t in
      UTC clk (MakeDate (MakeDay (YearFromTime lt) (MonthFromTime lt) dt) (TimeWithinDay lt)))"

text \<open>Decimal digits of a number, padded with zeros to a width.\<close>

definition digitChar :: "int \<Rightarrow> char" where
  "digitChar d = ''0123456789'' ! nat (d mod 10)"

fun padDigits :: "nat \<Rightarrow> int \<Rightarrow> string" where
  "padDigits 0 n = []"
| "padDigits (Suc k) n = padDigits k (n div 10) @ [digitChar n]"

text \<open>
  \<open>toISOString().split('T')[0]\<close>: the calendar date of the time value in UTC, as
  \<open>YYYY-MM-DD\<close>; years outside 0..9999 are written with a sign and six digits.
\<close>

definition isoYear :: "int \<Rightarrow> string" where
  "isoYear y =
     (if 0 \<le> y \<and> y \<le> 9999 then padDigits 4 y
      else if y < 0 then CHR ''-'' # padDigits 6 (- y)
      else CHR ''+'' # padDigits 6 y)"

definition toISODate :: "int \<Rightarrow> string" where
  "toISODate t =
     isoYear (YearFromTime t) @ ''-'' @ padDigits 2 (MonthFromTime t + 1)
       @ ''-'' @ padDigits 2 (DateFromTime t)"

text \<open>The two helpers at the top of the source file.\<close>

definition getWeekStart :: "clock \<Rightarrow> string" where
  "getWeekStart clk =
     (let date = now_ms clk;
          day = getDay clk date;
          diff = getDate clk date - day + (if day = 0 then - 6 else 1);
          start = setDate clk date diff
      in toISODate start)"

definition getMonthStart :: "clock \<Rightarrow> string" where
  "getMonthStart clk = toISODate (setDate clk (now_ms clk) 1)"

text \<open>\<open>new Date().toISOString().split('T')[0]\<close>.\<close>

definition today :: "clock \<Rightarrow> string" where
  "today clk = toISODate (now_ms clk)"


section \<open>The \<open>expenses\<close> table and the component state\<close>

text \<open>
  A row of the table \<open>expenses\<close>, with the columns of the \<open>CREATE TABLE\<close> statement:
  \<open>id INTEGER PRIMARY KEY AUTOINCREMENT\<close>, \<open>amount REAL NOT NULL\<close>,
  \<open>category TEXT NOT NULL\<close>, \<open>note TEXT\<close> (\<open>None\<close> is \<open>null\<close>) and
  \<open>date TEXT NOT NULL\<close>. Row ids are unbounded integers here.
\<close>

record expense =
  id_col :: int
  amount_col :: jsnum
  category_col :: string
  note_col :: "string option"
  date_col :: string

text \<open>
  The database (the table in insertion order and the \<open>AUTOINCREMENT\<close> counter kept in
  \<open>sqlite_sequence\<close>) together with the \<open>useState\<close> cells of \<open>ExpenseScreen\<close>.
  The form field \<open>note\<close> (here \<open>note_input\<close>) can hold \<open>null\<close>, because
  \<open>handleEditPress\<close> copies the column into it.
\<close>

record state =
  table :: "expense list"
  sqlite_sequence :: int
  expenses :: "expense list"
  amount :: string
  category :: string
  note_input :: "string option"
  filter_sel :: string
  isEditing :: bool
  editId :: "int option"

text \<open>What a handler does instead of finishing: an alert box, or the exception of \<open>null.trim()\<close>.\<close>

datatype failure = Alert string string | TypeError

subsection \<open>The SQL statements\<close>

text \<open>\<open>ORDER BY date DESC, id DESC\<close>: text compares bytewise, ids as integers.\<close>

definition orderBefore :: "expense \<Rightarrow> expense \<Rightarrow> bool" where
  "orderBefore a b =
     (date_col b < date_col a \<or> (date_col a = date_col b \<and> id_col b \<le> id_col a))"

fun insertRow :: "expense \<Rightarrow> expense list \<Rightarrow> expense list" where
  "insertRow r [] = [r]"
| "insertRow r (x # xs) = (if orderBefore r x then r # x # xs else x # insertRow r xs)"

definition orderBy :: "expense list \<Rightarrow> expense list" where
  "orderBy rows = foldr insertRow rows []"

text \<open>The \<open>WHERE\<close> clause that \<open>loadExpenses\<close> builds for a filter name.\<close>

definition whereClause :: "clock \<Rightarrow> string \<Rightarrow> expense \<Rightarrow> bool" where
  "whereClause clk currentFilter =
     (let now = today clk in
      if currentFilter = ''This Week'' then
        (let weekStart = getWeekStart clk in (\<lambda>r. weekStart \<le> date_col r \<and> date_col r \<le> now))
      else if currentFilter = ''This Month'' then
        (let monthStart = getMonthStart clk in (\<lambda>r. monthStart \<le> date_col r \<and> date_col r \<le> now))
      else (\<lambda>r. True))"

definition selectExpenses :: "clock \<Rightarrow> string \<Rightarrow> expense list \<Rightarrow> expense list" where
  "selectExpenses clk currentFilter rows = orderBy (filter (whereClause clk currentFilter) rows)"

text \<open>
  \<open>INSERT INTO expenses (amount, category, note, date)\<close>: the new id is one more than
  the largest id the table ever held.
\<close>

definition nextId :: "state \<Rightarrow> int" where
  "nextId s = 1 + fold max (map id_col (table s)) (max 0 (sqlite_sequence s))"

definition insertExpense :: "jsnum \<Rightarrow> string \<Rightarrow> string option \<Rightarrow> string \<Rightarrow> state \<Rightarrow> state" where
  "insertExpense a c n d s =
     s\<lparr>table := table s @ [\<lparr>id_col = nextId s, amount_col = a, category_col = c,
                              note_col = n, date_col = d\<rparr>],
       sqlite_sequence := nextId s\<rparr>"

text \<open>\<open>DELETE FROM expenses WHERE id = ?\<close>\<close>

definition deleteRow :: "int \<Rightarrow> state \<Rightarrow> state" where
  "deleteRow i s = s\<lparr>table := filter (\<lambda>r. id_col r \<noteq> i) (table s)\<rparr>"

text \<open>\<open>UPDATE expenses SET amount = ?, category = ?, note = ? WHERE id = ?\<close>\<close>

definition updateRow :: "jsnum \<Rightarrow> string \<Rightarrow> string option \<Rightarrow> int \<Rightarrow> state \<Rightarrow> state" where
  "updateRow a c n i s =
     s\<lparr>table := map (\<lambda>r. if id_col r = i
                          then r\<lparr>amount_col := a, category_col := c, note_col := n\<rparr>
                          else r) (table s)\<rparr>"

subsection \<open>The handlers of \<open>ExpenseScreen\<close>\<close>

definition loadExpenses :: "clock \<Rightarrow> string \<Rightarrow> state \<Rightarrow> state" where
  "loadExpenses clk currentFilter s =
     s\<lparr>expenses := selectExpenses clk currentFilter (table s), filter_sel := currentFilter\<rparr>"

text \<open>\<open>trimmedNote || null\<close>\<close>

definition orNull :: "string \<Rightarrow> string option" where
  "orNull t = (if t = [] then None else Some t)"

definition clearForm :: "state \<Rightarrow> state" where
  "clearForm s = s\<lparr>amount := [], category := [], note_input := Some []\<rparr>"

definition addExpense :: "clock \<Rightarrow> state \<Rightarrow> failure option \<times> state" where
  "addExpense clk s =
     (let amountNumber = parseFloat (amount s) in
      if isNaN amountNumber \<or> le_zero amountNumber then
        (Some (Alert ''Invalid Input'' ''Please enter a valid amount and category.''), s)
      else if trim (category s) = [] then
        (Some (Alert ''Invalid Input'' ''Category is required.''), s)
      else
        (case note_input s of
           None \<Rightarrow> (Some TypeError, s)
         | Some n \<Rightarrow>
             (let trimmedCategory = trim (category s);
                  trimmedNote = trim n;
                  s1 = insertExpense amountNumber trimmedCategory (orNull trimmedNote) (today clk) s;
                  s2 = clearForm s1
              in (None, loadExpenses clk (filter_sel s) s2))))"

definition deleteExpense :: "clock \<Rightarrow> int \<Rightarrow> state \<Rightarrow> state" where
  "deleteExpense clk i s = loadExpenses clk (filter_sel s) (deleteRow i s)"

definition updateExpense :: "clock \<Rightarrow> state \<Rightarrow> failure option \<times> state" where
  "updateExpense clk s =
     (let amountNumber = parseFloat (amount s) in
      if isNaN amountNumber \<or> le_zero amountNumber \<or> trim (category s) = [] \<or> editId s = None then
        (Some (Alert ''Invalid Input'' ''Please correct the input fields.''), s)
      else
        (case note_input s of
           None \<Rightarrow> (Some TypeError, s)
         | Some n \<Rightarrow>
             (let trimmedCategory = trim (category s);
                  trimmedNote = trim n;
                  s1 = updateRow amountNumber trimmedCategory (orNull trimmedNote) (the (editId s)) s;
                  s2 = clearForm (s1\<lparr>isEditing := False, editId := None\<rparr>)
              in (None, loadExpenses clk (filter_sel s) s2))))"

text \<open>
  \<open>handleEditPress\<close> turns the row's amount into text with \<open>Number.prototype.toString\<close>,
  which is taken as the parameter \<open>numberToString\<close>.
\<close>

definition handleEditPress :: "(jsnum \<Rightarrow> string) \<Rightarrow> expense \<Rightarrow> state \<Rightarrow> state" where
  "handleEditPress numberToString item s =
     s\<lparr>editId := Some (id_col item),
       amount := numberToString (amount_col item),
       category := category_col item,
       note_input := note_col item,
       isEditing := True\<rparr>"

text \<open>The \<open>onPress\<close> of the button "Cancel Edit".\<close>

definition cancelEdit :: "state \<Rightarrow> state" where
  "cancelEdit s = clearForm (s\<lparr>isEditing := False, editId := None\<rparr>)"


subsection \<open>The totals computed in \<open>useMemo\<close>\<close>

text \<open>
  The values that can sit in \<open>categoryMap\<close> or come out of a property read on it:
  \<open>undefined\<close>, a number, a member inherited from \<open>Object.prototype\<close> (a function or
  an object), and the string that \<open>+\<close> makes of such a member and a number. The text of
  that string is not tracked; it is never empty and never a numeric literal.
\<close>

datatype jsval = Undefined | Num jsnum | Inherited | Str

text \<open>
  \<open>categoryMap\<close> starts as the object literal \<open>{}\<close>: its own properties, in the order
  of their creation, and behind them the members of \<open>Object.prototype\<close>.
\<close>

type_synonym jsobject = "(string \<times> jsval) list"

definition objectPrototypeNames :: "string list" where
  "objectPrototypeNames =
     [''constructor'', ''__defineGetter__'', ''__defineSetter__'', ''hasOwnProperty'',
      ''__lookupGetter__'', ''__lookupSetter__'', ''isPrototypeOf'', ''propertyIsEnumerable'',
      ''toString'', ''valueOf'', ''__proto__'', ''toLocaleString'']"

text \<open>\<open>map[cat]\<close> as a read.\<close>

definition getProp :: "jsobject \<Rightarrow> string \<Rightarrow> jsval" where
  "getProp obj k =
     (case map_of obj k of
        Some v \<Rightarrow> v
      | None \<Rightarrow> if k \<in> set objectPrototypeNames then Inherited else Undefined)"

text \<open>
  \<open>map[cat] = v\<close> for a primitive \<open>v\<close>: the inherited setter of \<open>__proto__\<close> ignores
  it; any other key is overwritten in place or appended.
\<close>

fun putOwn :: "string \<Rightarrow> jsval \<Rightarrow> jsobject \<Rightarrow> jsobject" where
  "putOwn k v [] = [(k, v)]"
| "putOwn k v ((k', v') # rest) = (if k' = k then (k, v) # rest else (k', v') # putOwn k v rest)"

definition setProp :: "jsobject \<Rightarrow> string \<Rightarrow> jsval \<Rightarrow> jsobject" where
  "setProp obj k v = (if k = ''__proto__'' then obj else putOwn k v obj)"

fun truthy :: "jsval \<Rightarrow> bool" where
  "truthy Undefined = False"
| "truthy (Num n) = truthy_num n"
| "truthy Inherited = True"
| "truthy Str = True"

text \<open>\<open>v || 0\<close>\<close>

definition orZero :: "jsval \<Rightarrow> jsval" where
  "orZero v = (if truthy v then v else Num (Fin 0))"

text \<open>\<open>v + n\<close> for a number \<open>n\<close>: addition of numbers, concatenation otherwise.\<close>

fun plusNumber :: "jsval \<Rightarrow> jsnum \<Rightarrow> jsval" where
  "plusNumber (Num a) n = Num (js_add a n)"
| "plusNumber Undefined n = Num NaN"
| "plusNumber Inherited n = Str"
| "plusNumber Str n = Str"

definition overallTotal :: "expense list \<Rightarrow> jsnum" where
  "overallTotal es = foldl (\<lambda>acc expense. js_add acc (amount_col expense)) (Fin 0) es"

definition categoryMap :: "expense list \<Rightarrow> jsobject" where
  "categoryMap es =
     foldl (\<lambda>m expense.
              let cat = category_col expense
              in setProp m cat (plusNumber (orZero (getProp m cat)) (amount_col expense)))
           [] es"

text \<open>
  \<open>Object.keys\<close>: the keys that are array indices (canonical decimal numerals below
  \<open>2^32 - 1\<close>) in ascending numeric order, then the other keys in creation order.
\<close>

definition isArrayIndex :: "string \<Rightarrow> bool" where
  "isArrayIndex k =
     (k \<noteq> [] \<and> list_all isDigit k \<and> (k = ''0'' \<or> hd k \<noteq> CHR ''0'') \<and> digitsVal k < 4294967295)"

definition objectKeys :: "jsobject \<Rightarrow> string list" where
  "objectKeys obj =
     sort_key digitsVal (filter isArrayIndex (map fst obj))
       @ filter (\<lambda>k. \<not> isArrayIndex k) (map fst obj)"

text \<open>\<open>ToNumber\<close> of a stored total, for the subtraction in the comparator.\<close>

fun toNumber :: "jsval \<Rightarrow> jsnum" where
  "toNumber (Num n) = n"
| "toNumber _ = NaN"

text \<open>
  \<open>(a, b) => b.total - a.total\<close> and the decision \<open>sort\<close> takes from it: \<open>a\<close> goes
  after \<open>b\<close> when the result is above zero; \<open>NaN\<close> counts as zero.
\<close>

definition compareTotals :: "string \<times> jsval \<Rightarrow> string \<times> jsval \<Rightarrow> jsnum" where
  "compareTotals a b = js_sub (toNumber (snd b)) (toNumber (snd a))"

fun gt_zero :: "jsnum \<Rightarrow> bool" where
  "gt_zero PosInf = True"
| "gt_zero (Fin r) = (0 < r)"
| "gt_zero _ = False"

text \<open>
  \<open>Array.prototype.sort\<close> is stable; an insertion sort gives its result whenever the
  comparisons are consistent, as they are among finite numbers. Where a comparison yields
  \<open>NaN\<close> (a string among the totals) the engine's order is its own.
\<close>

fun insertEntry :: "string \<times> jsval \<Rightarrow> (string \<times> jsval) list \<Rightarrow> (string \<times> jsval) list" where
  "insertEntry a [] = [a]"
| "insertEntry a (b # bs) =
     (if gt_zero (compareTotals a b) then b # insertEntry a bs else a # b # bs)"

definition sortEntries :: "(string \<times> jsval) list \<Rightarrow> (string \<times> jsval) list" where
  "sortEntries xs = foldr insertEntry xs []"

text \<open>An element of \<open>categoryTotals\<close> is the pair of \<open>category\<close> and \<open>total\<close>.\<close>

definition categoryTotals :: "expense list \<Rightarrow> (string \<times> jsval) list" where
  "categoryTotals es =
     (let m = categoryMap es
      in sortEntries (map (\<lambda>category. (category, getProp m category)) (objectKeys m)))"

subsection \<open>The screen as a transition system\<close>

text \<open>
  What the user can do: type into a form field, choose a filter (\<open>setFilter\<close>, whose
  effect re-queries when the filter has changed), press the submit button (which is bound
  to \<open>updateExpense\<close> while editing and to \<open>addExpense\<close> otherwise), press
  "Cancel Edit" (shown only while editing), press a listed row or its delete mark. The
  state updates of one handler take effect together, as React batches them.
\<close>

datatype action =
    ChangeAmount string
  | ChangeCategory string
  | ChangeNote string
  | PressFilter string
  | PressSubmit
  | PressCancel
  | PressRow expense
  | PressDelete expense

definition step :: "(jsnum \<Rightarrow> string) \<Rightarrow> clock \<Rightarrow> action \<Rightarrow> state \<Rightarrow> state" where
  "step numberToString clk a s =
     (case a of
        ChangeAmount v \<Rightarrow> s\<lparr>amount := v\<rparr>
      | ChangeCategory v \<Rightarrow> s\<lparr>category := v\<rparr>
      | ChangeNote v \<Rightarrow> s\<lparr>note_input := Some v\<rparr>
      | PressFilter f \<Rightarrow> (if f = filter_sel s then s else loadExpenses clk f s)
      | PressSubmit \<Rightarrow> snd (if isEditing s then updateExpense clk s else addExpense clk s)
      | PressCancel \<Rightarrow> (if isEditing s then cancelEdit s else s)
      | PressRow item \<Rightarrow> (if item \<in> set (expenses s) then handleEditPress numberToString item s else s)
      | PressDelete item \<Rightarrow> (if item \<in> set (expenses s) then deleteExpense clk (id_col item) s else s))"

text \<open>The state after mounting on a database: the initial \<open>useState\<close> values, then \<open>loadExpenses('All')\<close>.\<close>

definition mounted :: "clock \<Rightarrow> expense list \<Rightarrow> int \<Rightarrow> state" where
  "mounted clk rows seq =
     loadExpenses clk ''All''
       \<lparr>table = rows, sqlite_sequence = seq, expenses = [], amount = [], category = [],
        note_input = Some [], filter_sel = ''All'', isEditing = False, editId = None\<rparr>"

fun run :: "(jsnum \<Rightarrow> string) \<Rightarrow> (clock \<times> action) list \<Rightarrow> state \<Rightarrow> state" where
  "run numberToString [] s = s"
| "run numberToString ((clk, a) # rest) s = run numberToString rest (step numberToString clk a s)"

section \<open>Notions of the specification, and sample data\<close>

text \<open>"A finite number above zero", the amounts the specification lets \<open>add\<close> accept.\<close>

fun finitePositive :: "jsnum \<Rightarrow> bool" where
  "finitePositive (Fin r) = (0 < r)"
| "finitePositive _ = False"

text \<open>"The current local date": the calendar date of the clock's local time.\<close>

definition localDate :: "clock \<Rightarrow> string" where
  "localDate clk = toISODate (LocalTime clk (now_ms clk))"

text \<open>The two pieces of edit-session state agree.\<close>

definition editAgree :: "state \<Rightarrow> bool" where
  "editAgree s = (isEditing s = (editId s \<noteq> None))"

text \<open>
  "The Monday on or before" and "the first calendar day of the month" of the date of a
  time value, as dates in the format of the \<open>date\<close> column.
\<close>

definition mondayOnOrBefore :: "int \<Rightarrow> string" where
  "mondayOnOrBefore t = toISODate ((Day t - (WeekDay t + 6) mod 7) * msPerDay)"

definition firstOfMonth :: "int \<Rightarrow> string" where
  "firstOfMonth t = toISODate ((Day t - (DateFromTime t - 1)) * msPerDay)"

text \<open>The per-category totals summed up, left to right from 0.\<close>

definition sumTotals :: "(string \<times> jsval) list \<Rightarrow> jsnum" where
  "sumTotals xs = foldl (\<lambda>acc entry. js_add acc (toNumber (snd entry))) (Fin 0) xs"

text \<open>
  Two clocks. The first reads 2024-01-08T01:00Z in a zone five hours behind UTC, where it
  is Sunday 2024-01-07, 20:00. The second reads 2024-03-14T22:00Z in a zone ten hours
  ahead, where it is 2024-03-15, 08:00.
\<close>

definition sundayEveningClock :: clock where
  "sundayEveningClock = \<lparr>now_ms = 1704675600000, tz_offset_min = - 300\<rparr>"

definition marchMorningClock :: clock where
  "marchMorningClock = \<lparr>now_ms = 1710453600000, tz_offset_min = 600\<rparr>"

text \<open>A clock in UTC at 2024-01-10T12:00Z, a Wednesday.\<close>

definition utcNoonClock :: clock where
  "utcNoonClock = \<lparr>now_ms = 1704888000000, tz_offset_min = 0\<rparr>"

definition sampleRow :: "int \<Rightarrow> real \<Rightarrow> string \<Rightarrow> string \<Rightarrow> expense" where
  "sampleRow i a c d =
     \<lparr>id_col = i, amount_col = Fin a, category_col = c, note_col = None, date_col = d\<rparr>"

text \<open>A screen over a given table, with given form fields, not editing, filter \<open>All\<close>.\<close>

definition formState :: "expense list \<Rightarrow> string \<Rightarrow> string \<Rightarrow> string \<Rightarrow> state" where
  "formState rows a c n =
     \<lparr>table = rows, sqlite_sequence = 0, expenses = rows, amount = a, category = c,
      note_input = Some n, filter_sel = ''All'', isEditing = False, editId = None\<rparr>"

text \<open>Outside an edit session the form field \<open>note\<close> holds a string.\<close>

definition formReady :: "state \<Rightarrow> bool" where
  "formReady s = (isEditing s \<or> note_input s \<noteq> None)"

text \<open>A screen in an edit session for the row with a given id.\<close>

definition editingState :: "expense list \<Rightarrow> int \<Rightarrow> string \<Rightarrow> string \<Rightarrow> string \<Rightarrow> state" where
  "editingState rows i a c n = (formState rows a c n)\<lparr>isEditing := True, editId := Some i\<rparr>"

text \<open>
  Records as the specification has them: the amount is a finite number. They are
  \<open>plain\<close> when, in addition, no category is the name of a member of \<open>Object.prototype\<close>.
\<close>

definition plainRecords :: "expense list \<Rightarrow> bool" where
  "plainRecords es =
     list_all (\<lambda>e. category_col e \<notin> set objectPrototypeNames \<and> (\<exists>r. amount_col e = Fin r)) es"

definition realAmount :: "expense \<Rightarrow> real" where
  "realAmount e = (case amount_col e of Fin r \<Rightarrow> r | _ \<Rightarrow> 0)"

text \<open>The sum of the amounts of the records of one category.\<close>

definition catSum :: "string \<Rightarrow> expense list \<Rightarrow> real" where
  "catSum k es = sum_list (map realAmount (filter (\<lambda>e. category_col e = k) es))"

text \<open>The total of an entry of \<open>categoryTotals\<close> when it is a finite number.\<close>

fun totalOf :: "string \<times> jsval \<Rightarrow> real" where
  "totalOf (k, Num (Fin r)) = r"
| "totalOf _ = 0"


section \<open>Reading the table\<close>

lemma table_loadExpenses: "table (loadExpenses clk f s) = table s"
  by (simp add: loadExpenses_def)

lemma orderBefore_total: "orderBefore a b \<or> orderBefore b a"
  by (auto simp: orderBefore_def)

lemma orderBefore_trans: "orderBefore a b \<Longrightarrow> orderBefore b c \<Longrightarrow> orderBefore a c"
  by (auto simp: orderBefore_def)

lemma set_insertRow: "set (insertRow r xs) = insert r (set xs)"
  by (induction xs) auto

lemma mset_insertRow: "mset (insertRow r xs) = add_mset r (mset xs)"
  by (induction xs) auto

lemma sorted_insertRow:
  "sorted_wrt orderBefore xs \<Longrightarrow> sorted_wrt orderBefore (insertRow r xs)"
proof (induction xs)
  case Nil
  then show ?case by simp
next
  case (Cons x xs)
  show ?case
  proof (cases "orderBefore r x")
    case True
    with Cons.prems show ?thesis
      by (auto intro: orderBefore_trans)
  next
    case False
    then have "orderBefore x r"
      using orderBefore_total by blast
    with Cons False show ?thesis
      by (auto simp: set_insertRow)
  qed
qed

lemma mset_orderBy: "mset (orderBy rows) = mset rows"
  by (induction rows) (simp_all add: orderBy_def mset_insertRow)

lemma sorted_orderBy: "sorted_wrt orderBefore (orderBy rows)"
  by (induction rows) (simp_all add: orderBy_def sorted_insertRow)

text \<open>
  Whatever the table and the filter, the rows that \<open>loadExpenses\<close> puts on the screen
  are ordered by date descending and, for equal dates, by id descending, and they are the
  rows of the table that the \<open>WHERE\<close> clause lets through, each as often as it is in
  the table; under the filter \<open>All\<close> these are all rows. Two rows dated 2024-01-05 with
  ids 1 and 2 and one dated 2024-01-06 with id 3 come out under \<open>All\<close> as ids 3, 2, 1;
  the date decides before the id: id 1 dated 2024-01-06 comes before id 2 dated 2024-01-05.
\<close>

lemma loadExpenses_ordered:
  "sorted_wrt orderBefore (expenses (loadExpenses clk f s))
   \<and> mset (expenses (loadExpenses clk f s)) = mset (filter (whereClause clk f) (table s))
   \<and> mset (expenses (loadExpenses clk ''All'' s)) = mset (table s)
   \<and> map id_col (expenses (loadExpenses clk ''All''
        (s\<lparr>table := [sampleRow 1 4 ''Food'' ''2024-01-05'', sampleRow 2 6 ''Books'' ''2024-01-05'',
                      sampleRow 3 9 ''Rent'' ''2024-01-06'']\<rparr>))) = [3, 2, 1]
   \<and> map id_col (expenses (loadExpenses clk ''All''
        (s\<lparr>table := [sampleRow 1 4 ''Food'' ''2024-01-06'',
                      sampleRow 2 6 ''Books'' ''2024-01-05'']\<rparr>))) = [1, 2]"
proof -
  have a: "sorted_wrt orderBefore (expenses (loadExpenses clk f s))"
    by (simp add: loadExpenses_def selectExpenses_def sorted_orderBy)
  have b: "mset (expenses (loadExpenses clk f s)) = mset (filter (whereClause clk f) (table s))"
    by (simp add: loadExpenses_def selectExpenses_def mset_orderBy)
  have w: "whereClause clk ''All'' = (\<lambda>r. True)"
    by (simp add: whereClause_def)
  have b': "mset (expenses (loadExpenses clk ''All'' s)) = mset (table s)"
    by (simp add: loadExpenses_def selectExpenses_def mset_orderBy w)
  have c: "map id_col (expenses (loadExpenses clk ''All''
        (s\<lparr>table := [sampleRow 1 4 ''Food'' ''2024-01-05'', sampleRow 2 6 ''Books'' ''2024-01-05'',
                      sampleRow 3 9 ''Rent'' ''2024-01-06'']\<rparr>))) = [3, 2, 1]"
    by (simp add: loadExpenses_def selectExpenses_def w orderBy_def sampleRow_def orderBefore_def)
  have d: "map id_col (expenses (loadExpenses clk ''All''
        (s\<lparr>table := [sampleRow 1 4 ''Food'' ''2024-01-06'',
                      sampleRow 2 6 ''Books'' ''2024-01-05'']\<rparr>))) = [1, 2]"
    by (simp add: loadExpenses_def selectExpenses_def w orderBy_def sampleRow_def orderBefore_def)
  from a b b' c d show ?thesis by blast
qed

section \<open>Deleting\<close>

text \<open>
  C7. \<open>deleteExpense\<close> is idempotent. It removes the rows with the given id and no
  others; it has no failing outcome; run a second time it changes nothing (the table
  stays the same even when the clock has moved on); and when no row has the id, all it
  does is the re-query.
\<close>

theorem deleteExpense_idempotent:
  "deleteExpense clk i (deleteExpense clk i s) = deleteExpense clk i s
   \<and> table (deleteExpense clk' i (deleteExpense clk i s)) = table (deleteExpense clk i s)
   \<and> set (table (deleteExpense clk i s)) = set (table s) - {r. id_col r = i}
   \<and> ((\<forall>r \<in> set (table s). id_col r \<noteq> i) \<longrightarrow>
         deleteExpense clk i s = loadExpenses clk (filter_sel s) s)"
proof -
  have a: "deleteExpense clk i (deleteExpense clk i s) = deleteExpense clk i s"
    by (simp add: deleteExpense_def deleteRow_def loadExpenses_def)
  have b: "table (deleteExpense clk' i (deleteExpense clk i s)) = table (deleteExpense clk i s)"
    by (simp add: deleteExpense_def deleteRow_def loadExpenses_def)
  have c: "set (table (deleteExpense clk i s)) = set (table s) - {r. id_col r = i}"
    by (auto simp add: deleteExpense_def deleteRow_def loadExpenses_def)
  have d: "(\<forall>r \<in> set (table s). id_col r \<noteq> i) \<longrightarrow>
         deleteExpense clk i s = loadExpenses clk (filter_sel s) s"
  proof
    assume "\<forall>r \<in> set (table s). id_col r \<noteq> i"
    then have "filter (\<lambda>r. id_col r \<noteq> i) (table s) = table s"
      by (simp add: filter_id_conv)
    then show "deleteExpense clk i s = loadExpenses clk (filter_sel s) s"
      by (simp add: deleteExpense_def deleteRow_def)
  qed
  from a b c d show ?thesis by blast
qed

theorem deleteExpense_idempotent_witness:
  "7 \<notin> set (map id_col (table (formState [sampleRow 1 4 ''Food'' ''2024-01-05''] [] [] [])))
   \<and> deleteExpense utcNoonClock 7 (formState [sampleRow 1 4 ''Food'' ''2024-01-05''] [] [] [])
       = loadExpenses utcNoonClock ''All'' (formState [sampleRow 1 4 ''Food'' ''2024-01-05''] [] [] [])
   \<and> table (deleteExpense utcNoonClock 7 (formState [sampleRow 1 4 ''Food'' ''2024-01-05''] [] [] []))
       = [sampleRow 1 4 ''Food'' ''2024-01-05'']"
  using deleteExpense_idempotent
    [of utcNoonClock 7 "formState [sampleRow 1 4 ''Food'' ''2024-01-05''] [] [] []"]
  by (simp add: formState_def sampleRow_def loadExpenses_def)

section \<open>Updating\<close>


lemma updateExpense_cases:
  "(fst (updateExpense clk s) \<noteq> None \<and> snd (updateExpense clk s) = s)
   \<or> (\<exists>i n. fst (updateExpense clk s) = None \<and> editId s = Some i \<and> note_input s = Some n
        \<and> \<not> isNaN (parseFloat (amount s)) \<and> \<not> le_zero (parseFloat (amount s))
        \<and> trim (category s) \<noteq> []
        \<and> snd (updateExpense clk s) =
            loadExpenses clk (filter_sel s)
              (clearForm ((updateRow (parseFloat (amount s)) (trim (category s)) (orNull (trim n)) i s)
                  \<lparr>isEditing := False, editId := None\<rparr>)))"
  by (cases "note_input s"; cases "editId s") (auto simp: updateExpense_def Let_def)

lemma table_clearForm: "table (clearForm s) = table s"
  by (simp add: clearForm_def)

lemma ids_updateRow: "map id_col (table (updateRow a c n i s)) = map id_col (table s)"
  by (simp add: updateRow_def)

lemma dates_updateRow: "map date_col (table (updateRow a c n i s)) = map date_col (table s)"
  by (simp add: updateRow_def)

lemma updateExpense_failed: "fst (updateExpense clk s) \<noteq> None \<Longrightarrow> snd (updateExpense clk s) = s"
  using updateExpense_cases [of clk s] by auto

lemma updateExpense_table:
  assumes "fst (updateExpense clk s) = None"
  shows "\<exists>i n. editId s = Some i \<and> note_input s = Some n \<and>
           table (snd (updateExpense clk s)) =
             map (\<lambda>r. if id_col r = i
                       then r\<lparr>amount_col := parseFloat (amount s), category_col := trim (category s),
                              note_col := orNull (trim n)\<rparr>
                       else r) (table s)"
proof -
  from assms updateExpense_cases [of clk s]
  obtain i n where ok: "editId s = Some i" "note_input s = Some n"
        "snd (updateExpense clk s) =
            loadExpenses clk (filter_sel s)
              (clearForm ((updateRow (parseFloat (amount s)) (trim (category s)) (orNull (trim n)) i s)
                  \<lparr>isEditing := False, editId := None\<rparr>))"
    by auto
  have "table (snd (updateExpense clk s)) =
          table (updateRow (parseFloat (amount s)) (trim (category s)) (orNull (trim n)) i s)"
    by (simp add: ok(3) table_loadExpenses table_clearForm)
  with ok(1,2) show ?thesis
    by (simp add: updateRow_def)
qed

text \<open>
  C4. \<open>updateExpense\<close> never changes the id or the date of a row: whatever the
  input and whether it succeeds or not, the ids and the dates of the table are afterwards
  what they were, row by row. When it succeeds, the rows with the edited id have their
  amount, category and note replaced and every other row is as before.
\<close>

theorem updateExpense_keeps_id_and_date:
  "map id_col (table (snd (updateExpense clk s))) = map id_col (table s)
   \<and> map date_col (table (snd (updateExpense clk s))) = map date_col (table s)
   \<and> (fst (updateExpense clk s) = None \<longrightarrow>
        (\<exists>i n. editId s = Some i \<and> note_input s = Some n \<and>
           table (snd (updateExpense clk s)) =
             map (\<lambda>r. if id_col r = i
                       then r\<lparr>amount_col := parseFloat (amount s), category_col := trim (category s),
                              note_col := orNull (trim n)\<rparr>
                       else r) (table s)))"
proof (cases "fst (updateExpense clk s)")
  case None
  from updateExpense_table [OF None] obtain i n where
    t: "table (snd (updateExpense clk s)) =
             map (\<lambda>r. if id_col r = i
                       then r\<lparr>amount_col := parseFloat (amount s), category_col := trim (category s),
                              note_col := orNull (trim n)\<rparr>
                       else r) (table s)"
    by blast
  have "map id_col (table (snd (updateExpense clk s))) = map id_col (table s)"
    unfolding t by simp
  moreover have "map date_col (table (snd (updateExpense clk s))) = map date_col (table s)"
    unfolding t by simp
  ultimately show ?thesis
    using updateExpense_table [OF None] by blast
next
  case (Some f)
  then have "snd (updateExpense clk s) = s"
    by (simp add: updateExpense_failed)
  with Some show ?thesis by simp
qed

theorem updateExpense_keeps_id_and_date_witness:
  "fst (updateExpense utcNoonClock
          (editingState [sampleRow 1 4 ''Food'' ''2024-01-05''] 1 ''20'' '' Books'' [])) = None
   \<and> table (snd (updateExpense utcNoonClock
          (editingState [sampleRow 1 4 ''Food'' ''2024-01-05''] 1 ''20'' '' Books'' [])))
      = [sampleRow 1 20 ''Books'' ''2024-01-05'']"
proof -
  let ?s = "editingState [sampleRow 1 4 ''Food'' ''2024-01-05''] 1 ''20'' '' Books'' []"
  have h: "fst (updateExpense utcNoonClock ?s) = None"
    by code_simp
  have e: "editId ?s = Some 1" "note_input ?s = Some []" "table ?s = [sampleRow 1 4 ''Food'' ''2024-01-05'']"
    by (simp_all add: editingState_def formState_def)
  have p: "parseFloat (amount ?s) = Fin 20" "trim (category ?s) = ''Books''" "orNull (trim []) = None"
    by code_simp+
  from updateExpense_keeps_id_and_date [of utcNoonClock ?s] h
  have "\<exists>i n. editId ?s = Some i \<and> note_input ?s = Some n \<and>
           table (snd (updateExpense utcNoonClock ?s)) =
             map (\<lambda>r. if id_col r = i
                       then r\<lparr>amount_col := parseFloat (amount ?s), category_col := trim (category ?s),
                              note_col := orNull (trim n)\<rparr>
                       else r) (table ?s)"
    by blast
  then have "table (snd (updateExpense utcNoonClock ?s)) = [sampleRow 1 20 ''Books'' ''2024-01-05'']"
    unfolding e p by (auto simp: sampleRow_def p)
  with h show ?thesis by simp
qed


text \<open>A note field holding \<open>null\<close> stops \<open>updateExpense\<close> at \<open>note.trim()\<close>.\<close>

lemma updateExpense_null_note:
  assumes "\<not> isNaN (parseFloat (amount s))" "\<not> le_zero (parseFloat (amount s))"
    "trim (category s) \<noteq> []" "editId s \<noteq> None" "note_input s = None"
  shows "updateExpense clk s = (Some TypeError, s)"
  using assms by (simp add: updateExpense_def)

text \<open>
  C3. When no row has the id of the edit session, \<open>updateExpense\<close> leaves the table as
  it is and knows no failure of its own for that: input that passes the validation (and a
  note field holding a string) completes without any failure and ends the edit session,
  the \<open>UPDATE\<close> having matched no row; input that fails the validation gets the alert
  "Invalid Input", as it does for an existing id.
\<close>

theorem updateExpense_missing_id:
  assumes "editId s = Some i" and "\<forall>r \<in> set (table s). id_col r \<noteq> i"
  shows "table (snd (updateExpense clk s)) = table s
     \<and> (\<not> isNaN (parseFloat (amount s)) \<and> \<not> le_zero (parseFloat (amount s))
          \<and> trim (category s) \<noteq> [] \<and> note_input s \<noteq> None
          \<longrightarrow> fst (updateExpense clk s) = None \<and> editId (snd (updateExpense clk s)) = None)
     \<and> (isNaN (parseFloat (amount s)) \<or> le_zero (parseFloat (amount s)) \<or> trim (category s) = []
          \<longrightarrow> fst (updateExpense clk s) = Some (Alert ''Invalid Input'' ''Please correct the input fields.''))"
proof -
  have same: "map (\<lambda>r. if id_col r = i then f r else r) (table s) = table s" for f
    using assms(2) by (simp add: map_idI)
  have a: "table (snd (updateExpense clk s)) = table s"
  proof (cases "fst (updateExpense clk s)")
    case None
    from updateExpense_table [OF None] assms(1) show ?thesis
      by (auto simp: same)
  next
    case (Some f)
    then show ?thesis
      by (simp add: updateExpense_failed)
  qed
  have b: "\<not> isNaN (parseFloat (amount s)) \<and> \<not> le_zero (parseFloat (amount s))
          \<and> trim (category s) \<noteq> [] \<and> note_input s \<noteq> None
          \<longrightarrow> fst (updateExpense clk s) = None \<and> editId (snd (updateExpense clk s)) = None"
    using assms(1) by (auto simp: updateExpense_def Let_def loadExpenses_def clearForm_def)
  have c: "isNaN (parseFloat (amount s)) \<or> le_zero (parseFloat (amount s)) \<or> trim (category s) = []
          \<longrightarrow> fst (updateExpense clk s) = Some (Alert ''Invalid Input'' ''Please correct the input fields.'')"
    by (auto simp: updateExpense_def Let_def)
  from a b c show ?thesis by blast
qed

text \<open>
  The claim as written fails. Mount the screen on a table with the rows 1 and 5, press
  row 5 (the edit session is now on id 5), press its delete mark, type a note: no row has
  id 5 any more, and saving reports no failure.
\<close>

theorem updateExpense_missing_id_counterexample:
  "editId (run (\<lambda>n. ''9'')
        [(utcNoonClock, PressRow (sampleRow 5 9 ''Rent'' ''2024-01-06'')),
         (utcNoonClock, PressDelete (sampleRow 5 9 ''Rent'' ''2024-01-06'')),
         (utcNoonClock, ChangeNote ''flat'')]
        (mounted utcNoonClock
           [sampleRow 1 4 ''Food'' ''2024-01-05'', sampleRow 5 9 ''Rent'' ''2024-01-06''] 5)) = Some 5
   \<and> map id_col (table (run (\<lambda>n. ''9'')
        [(utcNoonClock, PressRow (sampleRow 5 9 ''Rent'' ''2024-01-06'')),
         (utcNoonClock, PressDelete (sampleRow 5 9 ''Rent'' ''2024-01-06'')),
         (utcNoonClock, ChangeNote ''flat'')]
        (mounted utcNoonClock
           [sampleRow 1 4 ''Food'' ''2024-01-05'', sampleRow 5 9 ''Rent'' ''2024-01-06''] 5))) = [1]
   \<and> fst (updateExpense utcNoonClock (run (\<lambda>n. ''9'')
        [(utcNoonClock, PressRow (sampleRow 5 9 ''Rent'' ''2024-01-06'')),
         (utcNoonClock, PressDelete (sampleRow 5 9 ''Rent'' ''2024-01-06'')),
         (utcNoonClock, ChangeNote ''flat'')]
        (mounted utcNoonClock
           [sampleRow 1 4 ''Food'' ''2024-01-05'', sampleRow 5 9 ''Rent'' ''2024-01-06''] 5))) = None"
  by code_simp

theorem updateExpense_missing_id_witness:
  "editId (editingState [sampleRow 1 4 ''Food'' ''2024-01-05''] 5 ''20'' ''Food'' []) = Some 5
   \<and> 5 \<notin> set (map id_col (table (editingState [sampleRow 1 4 ''Food'' ''2024-01-05''] 5 ''20'' ''Food'' [])))
   \<and> table (snd (updateExpense utcNoonClock
        (editingState [sampleRow 1 4 ''Food'' ''2024-01-05''] 5 ''20'' ''Food'' [])))
      = [sampleRow 1 4 ''Food'' ''2024-01-05'']"
proof -
  let ?s = "editingState [sampleRow 1 4 ''Food'' ''2024-01-05''] 5 ''20'' ''Food'' []"
  have h1: "editId ?s = Some 5"
    by (simp add: editingState_def formState_def)
  have t: "table ?s = [sampleRow 1 4 ''Food'' ''2024-01-05'']"
    by (simp add: editingState_def formState_def)
  have h2: "\<forall>r \<in> set (table ?s). id_col r \<noteq> 5"
    by (simp add: editingState_def formState_def sampleRow_def)
  from updateExpense_missing_id [OF h1 h2, of utcNoonClock]
  have "table (snd (updateExpense utcNoonClock ?s)) = table ?s"
    by blast
  with h1 t show ?thesis
    by (simp add: sampleRow_def)
qed



section \<open>Adding\<close>

lemma fold_max_ge_start: "(a::int) \<le> fold max xs a"
proof (induction xs arbitrary: a)
  case Nil
  show ?case by simp
next
  case (Cons x xs)
  have "a \<le> max x a" by simp
  also have "\<dots> \<le> fold max xs (max x a)" by (rule Cons.IH)
  finally show ?case by simp
qed

lemma fold_max_ge_elem: "x \<in> set xs \<Longrightarrow> (x::int) \<le> fold max xs a"
proof (induction xs arbitrary: a)
  case Nil
  then show ?case by simp
next
  case (Cons y ys)
  show ?case
  proof (cases "x = y")
    case True
    have "x \<le> max y a" using True by simp
    also have "\<dots> \<le> fold max ys (max y a)" by (rule fold_max_ge_start)
    finally show ?thesis by simp
  next
    case False
    with Cons.prems have "x \<in> set ys" by simp
    then show ?thesis by (simp add: Cons.IH)
  qed
qed

lemma nextId_fresh: "r \<in> set (table s) \<Longrightarrow> id_col r < nextId s"
proof -
  assume "r \<in> set (table s)"
  then have "id_col r \<in> set (map id_col (table s))" by simp
  then have "id_col r \<le> fold max (map id_col (table s)) (max 0 (sqlite_sequence s))"
    by (rule fold_max_ge_elem)
  then show ?thesis by (simp add: nextId_def)
qed

lemma finitePositive_passes: "finitePositive p \<Longrightarrow> \<not> isNaN p \<and> \<not> le_zero p"
  by (cases p) auto

lemma addExpense_rejects:
  assumes "isNaN (parseFloat (amount s)) \<or> le_zero (parseFloat (amount s)) \<or> trim (category s) = []"
  shows "(\<exists>m. fst (addExpense clk s) = Some (Alert ''Invalid Input'' m)) \<and> snd (addExpense clk s) = s"
  using assms by (auto simp: addExpense_def Let_def)

lemma addExpense_accepts:
  assumes "\<not> isNaN (parseFloat (amount s))" "\<not> le_zero (parseFloat (amount s))"
    "trim (category s) \<noteq> []" "note_input s = Some n"
  shows "addExpense clk s =
           (None, loadExpenses clk (filter_sel s)
              (clearForm (insertExpense (parseFloat (amount s)) (trim (category s)) (orNull (trim n))
                            (today clk) s)))"
  using assms by (simp add: addExpense_def Let_def)

text \<open>
  What \<open>addExpense\<close> does with valid input. When the amount field parses to a finite
  number above zero, the category is not empty after trimming and the note field holds a
  string, it reports no failure and appends exactly one row to the table: its id is new,
  its amount is the parsed value, its category the trimmed category, its note the trimmed
  note or \<open>null\<close> when that is empty, and its date the calendar date of the clock in
  UTC (the first ten characters of \<open>toISOString()\<close>).
\<close>

lemma addExpense_valid:
  assumes "finitePositive (parseFloat (amount s))" and "trim (category s) \<noteq> []"
    and "note_input s = Some n"
  shows "fst (addExpense clk s) = None
     \<and> table (snd (addExpense clk s)) =
         table s @ [\<lparr>id_col = nextId s, amount_col = parseFloat (amount s),
                     category_col = trim (category s),
                     note_col = (if trim n = [] then None else Some (trim n)),
                     date_col = toISODate (now_ms clk)\<rparr>]
     \<and> nextId s \<notin> set (map id_col (table s))"
proof -
  from assms(1) have p: "\<not> isNaN (parseFloat (amount s))" "\<not> le_zero (parseFloat (amount s))"
    by (simp_all add: finitePositive_passes)
  note r = addExpense_accepts [OF p assms(2,3), of clk]
  have a: "fst (addExpense clk s) = None"
    by (simp add: r)
  have b: "table (snd (addExpense clk s)) =
         table s @ [\<lparr>id_col = nextId s, amount_col = parseFloat (amount s),
                     category_col = trim (category s),
                     note_col = (if trim n = [] then None else Some (trim n)),
                     date_col = toISODate (now_ms clk)\<rparr>]"
    by (simp add: r table_loadExpenses table_clearForm insertExpense_def orNull_def today_def)
  have c: "nextId s \<notin> set (map id_col (table s))"
    using nextId_fresh [of _ s] by fastforce
  from a b c show ?thesis by blast
qed

lemma addExpense_valid_example:
  "finitePositive (parseFloat (amount (formState [sampleRow 1 4 ''Food'' ''2024-01-05''] ''12.5'' '' Food '' '' '')))
   \<and> table (snd (addExpense sundayEveningClock
        (formState [sampleRow 1 4 ''Food'' ''2024-01-05''] ''12.5'' '' Food '' '' '')))
      = [sampleRow 1 4 ''Food'' ''2024-01-05'', sampleRow 2 12.5 ''Food'' ''2024-01-08'']"
proof -
  let ?s = "formState [sampleRow 1 4 ''Food'' ''2024-01-05''] ''12.5'' '' Food '' '' ''"
  have p: "parseFloat (amount ?s) = Fin 12.5"
    by code_simp
  have h1: "finitePositive (parseFloat (amount ?s))"
    by (simp add: p)
  have c: "trim (category ?s) = ''Food''"
    by code_simp
  have h2: "trim (category ?s) \<noteq> []"
    by (simp add: c)
  have h3: "note_input ?s = Some '' ''"
    by (simp add: formState_def)
  have n: "trim '' '' = []"
    by code_simp
  have d: "toISODate (now_ms sundayEveningClock) = ''2024-01-08''"
    by code_simp
  have i: "nextId ?s = 2"
    by code_simp
  have t: "table ?s = [sampleRow 1 4 ''Food'' ''2024-01-05'']"
    by (simp add: formState_def)
  from addExpense_valid [OF h1 h2 h3, of sundayEveningClock]
  have "table (snd (addExpense sundayEveningClock ?s)) =
         table ?s @ [\<lparr>id_col = nextId ?s, amount_col = parseFloat (amount ?s),
                     category_col = trim (category ?s),
                     note_col = (if trim '' '' = [] then None else Some (trim '' '')),
                     date_col = toISODate (now_ms sundayEveningClock)\<rparr>]"
    by blast
  then have "table (snd (addExpense sundayEveningClock ?s))
      = [sampleRow 1 4 ''Food'' ''2024-01-05'', sampleRow 2 12.5 ''Food'' ''2024-01-08'']"
    unfolding p c n d i t by (simp add: sampleRow_def)
  with h1 show ?thesis by blast
qed

text \<open>
  C1. Valid input should add one record with the parsed amount, the trimmed category, the
  normalised note and the current local date. \<open>addExpense\<close> does all of that (lemma
  \<open>addExpense_valid\<close>) except for the date: \<open>today\<close> is taken from
  \<open>toISOString()\<close>, which prints the date in UTC. At 2024-01-08T01:00Z in a zone five
  hours behind UTC the local date is 2024-01-07, and the row is stamped 2024-01-08.
\<close>

theorem addExpense_stamps_utc_date:
  "finitePositive (parseFloat (amount (formState [] ''12.5'' '' Food '' [])))
   \<and> trim (category (formState [] ''12.5'' '' Food '' [])) = ''Food''
   \<and> map date_col (table (snd (addExpense sundayEveningClock (formState [] ''12.5'' '' Food '' []))))
       = [''2024-01-08'']
   \<and> localDate sundayEveningClock = ''2024-01-07''"
  by code_simp

text \<open>
  C2. An amount that is not a finite number above zero should be rejected without a
  write. The check in \<open>addExpense\<close> is \<open>isNaN(amountNumber) || amountNumber <= 0\<close>,
  which rejects \<open>NaN\<close>, zero and the negative numbers (lemma \<open>addExpense_rejects\<close>)
  and lets \<open>Infinity\<close> through: the text \<open>Infinity\<close> parses to the number
  \<open>Infinity\<close>, and the row is written.
\<close>

theorem addExpense_accepts_Infinity:
  "parseFloat (amount (formState [] ''Infinity'' ''Food'' [])) = PosInf
   \<and> fst (addExpense utcNoonClock (formState [] ''Infinity'' ''Food'' [])) = None
   \<and> table (snd (addExpense utcNoonClock (formState [] ''Infinity'' ''Food'' [])))
       = [\<lparr>id_col = 1, amount_col = PosInf, category_col = ''Food'', note_col = None,
            date_col = ''2024-01-10''\<rparr>]"
  by code_simp



section \<open>The date filters\<close>

lemma div_lower:
  fixes a k :: int
  assumes "0 < k"
  shows "k * (a div k) \<le> a"
  using mult_div_mod_eq [of k a] pos_mod_sign [OF assms, of a] by linarith

lemma div_upper:
  fixes a k :: int
  assumes "0 < k"
  shows "a < k * (a div k) + k"
  using mult_div_mod_eq [of k a] pos_mod_bound [OF assms, of a] by linarith

lemma DayFromYear_bounds:
  "400 * DayFromYear y \<le> 146097 * y - 287810501"
  "146097 * y - 287811596 \<le> 400 * DayFromYear y"
proof -
  define q1 where "q1 = (y - 1969) div 4"
  define q2 where "q2 = (y - 1901) div 100"
  define q3 where "q3 = (y - 1601) div 400"
  have a: "4 * q1 \<le> y - 1969" "y - 1969 < 4 * q1 + 4"
    unfolding q1_def by (simp_all add: div_lower div_upper)
  have b: "100 * q2 \<le> y - 1901" "y - 1901 < 100 * q2 + 100"
    unfolding q2_def by (simp_all add: div_lower div_upper)
  have c: "400 * q3 \<le> y - 1601" "y - 1601 < 400 * q3 + 400"
    unfolding q3_def by (simp_all add: div_lower div_upper)
  have d: "DayFromYear y = 365 * y - 719050 + q1 - q2 + q3"
    by (simp add: DayFromYear_def q1_def q2_def q3_def)
  show "400 * DayFromYear y \<le> 146097 * y - 287810501"
    using a b c d by linarith
  show "146097 * y - 287811596 \<le> 400 * DayFromYear y"
    using a b c d by linarith
qed

text \<open>\<open>YearFromDay\<close> is the year of the day: the day lies on or after the first day of that year and before the first day of the next.\<close>

lemma YearFromDay_largest:
  "DayFromYear (YearFromDay d) \<le> d \<and> d < DayFromYear (YearFromDay d + 1)"
proof -
  define n where "n = (d * 400) div 146097"
  have n: "146097 * n \<le> d * 400" "d * 400 < 146097 * n + 146097"
    unfolding n_def by (simp_all add: div_lower div_upper)
  have lo: "DayFromYear (1969 + n) \<le> d"
    using DayFromYear_bounds(1) [of "1969 + n"] n by (simp add: algebra_simps)
  have hi: "d < DayFromYear (1972 + n)"
    using DayFromYear_bounds(2) [of "1972 + n"] n by (simp add: algebra_simps)
  have e: "1970 + n - 1 = 1969 + n" "1970 + n + 1 + 1 = 1972 + n"
    by simp_all
  show ?thesis
    using lo hi by (auto simp: YearFromDay_def Let_def n_def [symmetric] e)
qed

lemma MonthFromTime_range: "0 \<le> MonthFromTime t \<and> MonthFromTime t \<le> 11"
proof -
  have "length (filter P [1, 2, 3, 4, 5, 6, 7, 8, 9, 10, 11 :: int]) \<le> 11" for P
    using length_filter_le [of P "[1, 2, 3, 4, 5, 6, 7, 8, 9, 10, 11]"] by simp
  then show ?thesis
    by (simp add: MonthFromTime_def MonthFromDayInYear_def)
qed

lemma toISODate_Day: "Day t = Day t' \<Longrightarrow> toISODate t = toISODate t'"
  by (simp add: toISODate_def YearFromTime_def MonthFromTime_def DateFromTime_def DayWithinYear_def)

lemma Day_MakeDate: "Day (MakeDate d (TimeWithinDay t)) = d"
  by (simp add: Day_def MakeDate_def TimeWithinDay_def msPerDay_def)

lemma Day_times: "Day (d * msPerDay) = d"
  by (simp add: Day_def msPerDay_def)

lemma MakeDay_same_month:
  "MakeDay (YearFromTime t) (MonthFromTime t) dt = Day t - DateFromTime t + dt"
  by (simp add: MakeDay_def DateFromTime_def DayWithinYear_def)

lemma Day_setDate_utc:
  "tz_offset_min clk = 0 \<Longrightarrow> Day (setDate clk t dt) = Day t - DateFromTime t + dt"
  by (simp add: setDate_def LocalTime_def UTC_def Let_def Day_MakeDate MakeDay_same_month)

lemma getMonthStart_utc:
  assumes "tz_offset_min clk = 0"
  shows "getMonthStart clk = firstOfMonth (now_ms clk)"
  unfolding getMonthStart_def firstOfMonth_def
  by (rule toISODate_Day) (simp add: Day_setDate_utc [OF assms] Day_times)

lemma WeekDay_range: "0 \<le> WeekDay t \<and> WeekDay t < 7"
  by (simp add: WeekDay_def)

lemma getWeekStart_utc:
  assumes "tz_offset_min clk = 0"
  shows "getWeekStart clk = mondayOnOrBefore (now_ms clk)"
proof -
  let ?t = "now_ms clk"
  have wd: "getDay clk ?t = WeekDay ?t" "getDate clk ?t = DateFromTime ?t"
    using assms by (simp_all add: getDay_def getDate_def LocalTime_def)
  have m: "(WeekDay ?t + 6) mod 7 = (if WeekDay ?t = 0 then 6 else WeekDay ?t - 1)"
    using WeekDay_range [of ?t] by presburger
  show ?thesis
    unfolding getWeekStart_def mondayOnOrBefore_def Let_def
    by (rule toISODate_Day) (simp add: Day_setDate_utc [OF assms] Day_times wd m)
qed

lemma mondayOnOrBefore_is_Monday:
  "WeekDay ((Day t - (WeekDay t + 6) mod 7) * msPerDay) = 1
   \<and> Day t - 6 \<le> Day t - (WeekDay t + 6) mod 7 \<and> Day t - (WeekDay t + 6) mod 7 \<le> Day t"
proof -
  have "(Day t - ((Day t + 4) mod 7 + 6) mod 7 + 4) mod 7 = 1"
    by presburger
  moreover have "0 \<le> ((Day t + 4) mod 7 + 6) mod 7 \<and> ((Day t + 4) mod 7 + 6) mod 7 \<le> 6"
    by presburger
  ultimately show ?thesis
    by (simp add: WeekDay_def Day_times)
qed

lemma set_orderBy: "set (orderBy rows) = set rows"
  by (metis mset_orderBy set_mset_mset)

text \<open>
  On a device whose zone is UTC the two range filters select what the claim says, with
  both bounds inclusive; a date after the reference date is never selected.
\<close>

lemma selectExpenses_utc:
  assumes "tz_offset_min clk = 0"
  shows "set (selectExpenses clk ''This Week'' rows)
           = {r \<in> set rows. mondayOnOrBefore (now_ms clk) \<le> date_col r \<and> date_col r \<le> today clk}"
    and "set (selectExpenses clk ''This Month'' rows)
           = {r \<in> set rows. firstOfMonth (now_ms clk) \<le> date_col r \<and> date_col r \<le> today clk}"
  by (auto simp: selectExpenses_def set_orderBy whereClause_def Let_def
        getWeekStart_utc [OF assms] getMonthStart_utc [OF assms])

text \<open>
  C5. The week should start on the Monday on or before the reference date and the month
  on its first day. \<open>getWeekStart\<close> and \<open>getMonthStart\<close> find the day with the
  local-time operations \<open>getDay\<close>, \<open>getDate\<close> and \<open>setDate\<close> and then print it
  with \<open>toISOString\<close>, in UTC. In UTC itself the two agree with the claim (lemmas
  \<open>getWeekStart_utc\<close>, \<open>getMonthStart_utc\<close>). Off UTC they do not. On the first
  sample clock the reference date is Monday 2024-01-08 (locally Sunday 2024-01-07), the
  week is made to start on Tuesday 2024-01-02, and a row dated 2024-01-03 is listed under
  "This Week". On the second the reference date is 2024-03-14, the month is made to start
  on 2024-02-29, and a row of that date is listed under "This Month".
\<close>

theorem date_filters_off_utc:
  "today sundayEveningClock = ''2024-01-08''
   \<and> getWeekStart sundayEveningClock = ''2024-01-02''
   \<and> mondayOnOrBefore (now_ms sundayEveningClock) = ''2024-01-08''
   \<and> mondayOnOrBefore (LocalTime sundayEveningClock (now_ms sundayEveningClock)) = ''2024-01-01''
   \<and> map id_col (selectExpenses sundayEveningClock ''This Week''
        [sampleRow 1 4 ''Food'' ''2024-01-01'', sampleRow 2 6 ''Books'' ''2024-01-03'',
         sampleRow 3 9 ''Rent'' ''2024-01-08'']) = [3, 2]
   \<and> today marchMorningClock = ''2024-03-14''
   \<and> getMonthStart marchMorningClock = ''2024-02-29''
   \<and> firstOfMonth (now_ms marchMorningClock) = ''2024-03-01''
   \<and> firstOfMonth (LocalTime marchMorningClock (now_ms marchMorningClock)) = ''2024-03-01''
   \<and> map id_col (selectExpenses marchMorningClock ''This Month''
        [sampleRow 1 4 ''Food'' ''2024-02-28'', sampleRow 2 6 ''Books'' ''2024-02-29'',
         sampleRow 3 9 ''Rent'' ''2024-03-14'']) = [3, 2]"
  by code_simp



text \<open>
  C6. A query should return the records that match the filter, ordered by date descending
  and, for equal dates, by id descending. The order is right for every table and filter,
  and so is the selection under \<open>All\<close> and, for the two range filters, on a device
  whose zone is UTC (lemmas \<open>loadExpenses_ordered\<close>, \<open>selectExpenses_utc\<close>). Off UTC
  the range filters do not select the matching records, because the start of the range is
  computed in local time and printed in UTC. On the first sample clock, with rows dated
  2024-01-01 (id 1), 2024-01-03 (id 2) and 2024-01-08 (id 3), "This Week" shows the ids
  3, 2. The records from the Monday on or before the reference date up to that date are
  id 3 alone when the reference date is the UTC date 2024-01-08, and ids 1 and 2 when it
  is the local date 2024-01-07.
\<close>

theorem loadExpenses_week_not_matching:
  "map id_col (expenses (loadExpenses sundayEveningClock ''This Week''
      (formState [sampleRow 1 4 ''Food'' ''2024-01-01'', sampleRow 2 6 ''Books'' ''2024-01-03'',
                  sampleRow 3 9 ''Rent'' ''2024-01-08''] [] [] []))) = [3, 2]
   \<and> map id_col (filter
         (\<lambda>r. mondayOnOrBefore (now_ms sundayEveningClock) \<le> date_col r
              \<and> date_col r \<le> today sundayEveningClock)
         [sampleRow 1 4 ''Food'' ''2024-01-01'', sampleRow 2 6 ''Books'' ''2024-01-03'',
          sampleRow 3 9 ''Rent'' ''2024-01-08'']) = [3]
   \<and> map id_col (filter
         (\<lambda>r. mondayOnOrBefore (LocalTime sundayEveningClock (now_ms sundayEveningClock)) \<le> date_col r
              \<and> date_col r \<le> localDate sundayEveningClock)
         [sampleRow 1 4 ''Food'' ''2024-01-01'', sampleRow 2 6 ''Books'' ''2024-01-03'',
          sampleRow 3 9 ''Rent'' ''2024-01-08'']) = [1, 2]"
  by code_simp

section \<open>The edit session\<close>

lemma edit_loadExpenses:
  "isEditing (loadExpenses clk f s) = isEditing s" "editId (loadExpenses clk f s) = editId s"
  "note_input (loadExpenses clk f s) = note_input s"
  by (simp_all add: loadExpenses_def)

lemma addExpense_edit:
  "isEditing (snd (addExpense clk s)) = isEditing s \<and> editId (snd (addExpense clk s)) = editId s"
  by (cases "note_input s")
     (simp_all add: addExpense_def Let_def loadExpenses_def clearForm_def insertExpense_def)

lemma addExpense_note: "note_input s \<noteq> None \<Longrightarrow> note_input (snd (addExpense clk s)) \<noteq> None"
  by (cases "note_input s")
     (simp_all add: addExpense_def Let_def loadExpenses_def clearForm_def insertExpense_def)

lemma updateExpense_saved:
  "fst (updateExpense clk s) = None \<Longrightarrow>
     \<not> isEditing (snd (updateExpense clk s)) \<and> editId (snd (updateExpense clk s)) = None
     \<and> note_input (snd (updateExpense clk s)) = Some []"
  using updateExpense_cases [of clk s]
  by (auto simp: loadExpenses_def clearForm_def)

lemma editAgree_step: "editAgree s \<Longrightarrow> editAgree (step numberToString clk a s)"
proof (cases a)
  case PressSubmit
  assume inv: "editAgree s"
  show ?thesis
  proof (cases "isEditing s")
    case True
    show ?thesis
    proof (cases "fst (updateExpense clk s)")
      case None
      with True PressSubmit show ?thesis
        by (simp add: step_def editAgree_def updateExpense_saved)
    next
      case (Some f)
      then have "snd (updateExpense clk s) = s"
        by (simp add: updateExpense_failed)
      with True PressSubmit inv show ?thesis
        by (simp add: step_def)
    qed
  next
    case False
    with PressSubmit inv show ?thesis
      by (simp add: step_def editAgree_def addExpense_edit)
  qed
qed (simp_all add: step_def editAgree_def edit_loadExpenses handleEditPress_def cancelEdit_def
       clearForm_def deleteExpense_def deleteRow_def)

lemma formReady_step: "formReady s \<Longrightarrow> formReady (step numberToString clk a s)"
proof (cases a)
  case PressSubmit
  assume inv: "formReady s"
  show ?thesis
  proof (cases "isEditing s")
    case True
    show ?thesis
    proof (cases "fst (updateExpense clk s)")
      case None
      with True PressSubmit show ?thesis
        by (simp add: step_def formReady_def updateExpense_saved)
    next
      case (Some f)
      then have "snd (updateExpense clk s) = s"
        by (simp add: updateExpense_failed)
      with True PressSubmit inv show ?thesis
        by (simp add: step_def)
    qed
  next
    case False
    with PressSubmit inv show ?thesis
      by (simp add: step_def formReady_def addExpense_edit addExpense_note)
  qed
qed (auto simp add: step_def formReady_def edit_loadExpenses handleEditPress_def cancelEdit_def
       clearForm_def deleteExpense_def deleteRow_def)

lemma editAgree_run: "editAgree s \<Longrightarrow> editAgree (run numberToString acts s)"
  by (induction acts arbitrary: s) (auto simp: editAgree_step)

lemma formReady_run: "formReady s \<Longrightarrow> formReady (run numberToString acts s)"
  by (induction acts arbitrary: s) (auto simp: formReady_step)

lemma mounted_inv: "editAgree (mounted clk rows seq) \<and> formReady (mounted clk rows seq)"
  by (simp add: mounted_def editAgree_def formReady_def loadExpenses_def)

lemma reachable_formReady: "formReady (run numberToString acts (mounted clk rows seq))"
  by (simp add: formReady_run mounted_inv)

text \<open>
  C10. In every state the screen can reach from mounting, by any sequence of user
  actions at any clock readings, \<open>isEditing\<close> is true exactly when \<open>editId\<close> is
  not \<open>null\<close>. \<open>handleEditPress\<close>, which starts an edit session, sets both;
  "Cancel Edit" and a successful \<open>updateExpense\<close>, which end one, clear both.
\<close>

theorem edit_session_state_agrees:
  "editAgree (run numberToString acts (mounted clk rows seq))
   \<and> (isEditing (handleEditPress numberToString item s)
        \<and> editId (handleEditPress numberToString item s) = Some (id_col item))
   \<and> (\<not> isEditing (cancelEdit s) \<and> editId (cancelEdit s) = None)
   \<and> (fst (updateExpense clk' s) = None \<longrightarrow>
        \<not> isEditing (snd (updateExpense clk' s)) \<and> editId (snd (updateExpense clk' s)) = None)"
proof -
  have a: "editAgree (run numberToString acts (mounted clk rows seq))"
    by (simp add: editAgree_run mounted_inv)
  have b: "isEditing (handleEditPress numberToString item s)
        \<and> editId (handleEditPress numberToString item s) = Some (id_col item)"
    by (simp add: handleEditPress_def)
  have c: "\<not> isEditing (cancelEdit s) \<and> editId (cancelEdit s) = None"
    by (simp add: cancelEdit_def clearForm_def)
  have d: "fst (updateExpense clk' s) = None \<longrightarrow>
        \<not> isEditing (snd (updateExpense clk' s)) \<and> editId (snd (updateExpense clk' s)) = None"
    by (simp add: updateExpense_saved)
  from a b c d show ?thesis by blast
qed

theorem edit_session_state_agrees_witness:
  "fst (updateExpense utcNoonClock
          (editingState [sampleRow 1 4 ''Food'' ''2024-01-05''] 1 ''20'' ''Food'' ''lunch'')) = None
   \<and> \<not> isEditing (snd (updateExpense utcNoonClock
          (editingState [sampleRow 1 4 ''Food'' ''2024-01-05''] 1 ''20'' ''Food'' ''lunch'')))
   \<and> editId (snd (updateExpense utcNoonClock
          (editingState [sampleRow 1 4 ''Food'' ''2024-01-05''] 1 ''20'' ''Food'' ''lunch''))) = None
   \<and> isEditing (run (\<lambda>n. ''4'')
        [(utcNoonClock, PressRow (sampleRow 1 4 ''Food'' ''2024-01-05'')),
         (utcNoonClock, ChangeAmount ''x'')]
        (mounted utcNoonClock [sampleRow 1 4 ''Food'' ''2024-01-05''] 1))
   \<and> editId (run (\<lambda>n. ''4'')
        [(utcNoonClock, PressRow (sampleRow 1 4 ''Food'' ''2024-01-05'')),
         (utcNoonClock, ChangeAmount ''x'')]
        (mounted utcNoonClock [sampleRow 1 4 ''Food'' ''2024-01-05''] 1)) \<noteq> None"
proof -
  let ?s = "editingState [sampleRow 1 4 ''Food'' ''2024-01-05''] 1 ''20'' ''Food'' ''lunch''"
  let ?r = "run (\<lambda>n. ''4'')
        [(utcNoonClock, PressRow (sampleRow 1 4 ''Food'' ''2024-01-05'')),
         (utcNoonClock, ChangeAmount ''x'')]
        (mounted utcNoonClock [sampleRow 1 4 ''Food'' ''2024-01-05''] 1)"
  have h: "fst (updateExpense utcNoonClock ?s) = None"
    by code_simp
  have e: "isEditing ?r"
    by code_simp
  from edit_session_state_agrees
    [of "\<lambda>n. ''4''" "[(utcNoonClock, PressRow (sampleRow 1 4 ''Food'' ''2024-01-05'')),
         (utcNoonClock, ChangeAmount ''x'')]" utcNoonClock "[sampleRow 1 4 ''Food'' ''2024-01-05'']" 1
        "sampleRow 1 4 ''Food'' ''2024-01-05''" ?s utcNoonClock]
  have "editAgree ?r" and "fst (updateExpense utcNoonClock ?s) = None \<longrightarrow>
        \<not> isEditing (snd (updateExpense utcNoonClock ?s)) \<and> editId (snd (updateExpense utcNoonClock ?s)) = None"
    by blast+
  with h e show ?thesis
    by (simp add: editAgree_def)
qed





section \<open>Totals\<close>

lemma map_of_putOwn: "map_of (putOwn k v m) = (map_of m)(k \<mapsto> v)"
  by (induction m) (auto simp: fun_upd_twist)

lemma keys_putOwn:
  "map fst (putOwn k v m) = (if k \<in> set (map fst m) then map fst m else map fst m @ [k])"
  by (induction m) (auto simp: rev_image_eqI)

lemma catSum_snoc:
  "catSum k (es @ [e]) = (if category_col e = k then catSum k es + realAmount e else catSum k es)"
  by (simp add: catSum_def)

lemma proto_in_names: "''__proto__'' \<in> set objectPrototypeNames"
  by (simp add: objectPrototypeNames_def)

lemma plainRecords_snoc:
  "plainRecords (es @ [e]) =
     (plainRecords es \<and> category_col e \<notin> set objectPrototypeNames \<and> (\<exists>r. amount_col e = Fin r))"
  by (auto simp: plainRecords_def)

lemma categoryMap_snoc:
  "categoryMap (es @ [e]) =
     setProp (categoryMap es) (category_col e)
       (plusNumber (orZero (getProp (categoryMap es) (category_col e))) (amount_col e))"
  by (simp add: categoryMap_def Let_def)

lemma orZero_Fin: "orZero (Num (Fin x)) = Num (Fin x)"
  by (simp add: orZero_def)

lemma categoryMap_plain:
  "plainRecords es \<Longrightarrow>
     distinct (map fst (categoryMap es))
     \<and> set (map fst (categoryMap es)) = category_col ` set es
     \<and> (\<forall>k \<in> category_col ` set es. map_of (categoryMap es) k = Some (Num (Fin (catSum k es))))"
proof (induction es rule: rev_induct)
  case Nil
  show ?case by (simp add: categoryMap_def)
next
  case (snoc e es)
  let ?m = "categoryMap es"
  let ?c = "category_col e"
  from snoc.prems obtain a where
    plain: "plainRecords es" and c: "?c \<notin> set objectPrototypeNames" and a: "amount_col e = Fin a"
    by (auto simp: plainRecords_snoc)
  from snoc.IH [OF plain] have
    d: "distinct (map fst ?m)" and
    ks: "set (map fst ?m) = category_col ` set es" and
    vs: "\<forall>k \<in> category_col ` set es. map_of ?m k = Some (Num (Fin (catSum k es)))"
    by blast+
  have np: "?c \<noteq> ''__proto__''"
    using c proto_in_names by metis
  have ra: "realAmount e = a"
    by (simp add: realAmount_def a)
  have new: "plusNumber (orZero (getProp ?m ?c)) (amount_col e) = Num (Fin (catSum ?c (es @ [e])))"
  proof (cases "?c \<in> category_col ` set es")
    case True
    with vs have "map_of ?m ?c = Some (Num (Fin (catSum ?c es)))" by blast
    then show ?thesis
      by (simp add: getProp_def orZero_Fin a catSum_snoc ra)
  next
    case False
    then have "?c \<notin> fst ` set ?m" using ks by simp
    then have "map_of ?m ?c = None" by (simp add: map_of_eq_None_iff)
    moreover from False have "\<forall>x \<in> set es. category_col x \<noteq> ?c"
      by (metis image_eqI)
    then have "filter (\<lambda>x. category_col x = ?c) es = []"
      by (simp add: filter_empty_conv)
    then have "catSum ?c es = 0"
      by (simp add: catSum_def)
    ultimately show ?thesis
      using c by (simp add: getProp_def orZero_def a catSum_snoc ra)
  qed
  have m': "categoryMap (es @ [e]) = putOwn ?c (Num (Fin (catSum ?c (es @ [e])))) ?m"
    by (simp add: categoryMap_snoc new setProp_def np)
  have d': "distinct (map fst (categoryMap (es @ [e])))"
    using d ks by (simp add: m' keys_putOwn)
  have ks': "set (map fst (categoryMap (es @ [e]))) = category_col ` set (es @ [e])"
    using ks by (auto simp: m' keys_putOwn)
  have vs': "\<forall>k \<in> category_col ` set (es @ [e]).
               map_of (categoryMap (es @ [e])) k = Some (Num (Fin (catSum k (es @ [e]))))"
  proof
    fix k assume k: "k \<in> category_col ` set (es @ [e])"
    show "map_of (categoryMap (es @ [e])) k = Some (Num (Fin (catSum k (es @ [e]))))"
    proof (cases "k = ?c")
      case True
      then show ?thesis by (simp add: m' map_of_putOwn)
    next
      case False
      with k have "k \<in> category_col ` set es" by auto
      with vs have "map_of ?m k = Some (Num (Fin (catSum k es)))" by blast
      with False show ?thesis
        by (simp add: m' map_of_putOwn catSum_snoc)
    qed
  qed
  from d' ks' vs' show ?case by blast
qed


lemma mset_objectKeys: "mset (objectKeys m) = mset (map fst m)"
  by (simp add: objectKeys_def)

lemma set_insertEntry: "set (insertEntry a bs) = insert a (set bs)"
  by (induction bs) auto

lemma mset_insertEntry: "mset (insertEntry a bs) = add_mset a (mset bs)"
  by (induction bs) auto

lemma mset_sortEntries: "mset (sortEntries xs) = mset xs"
  by (induction xs) (simp_all add: sortEntries_def mset_insertEntry)

lemma gt_zero_compareTotals:
  "snd a = Num (Fin x) \<Longrightarrow> snd b = Num (Fin y) \<Longrightarrow> gt_zero (compareTotals a b) = (x < y)"
  by (simp add: compareTotals_def js_sub_def)

lemma totalOf_Fin: "snd a = Num (Fin x) \<Longrightarrow> totalOf a = x"
  by (cases a) simp

lemma sorted_insertEntry:
  assumes "\<exists>r. snd a = Num (Fin r)" and "\<forall>b \<in> set bs. \<exists>r. snd b = Num (Fin r)"
    and "sorted_wrt (\<lambda>a b. totalOf b \<le> totalOf a) bs"
  shows "sorted_wrt (\<lambda>a b. totalOf b \<le> totalOf a) (insertEntry a bs)"
  using assms
proof (induction bs)
  case Nil
  show ?case by simp
next
  case (Cons b bs)
  from Cons.prems obtain x y where x: "snd a = Num (Fin x)" and y: "snd b = Num (Fin y)"
    by auto
  have g: "gt_zero (compareTotals a b) = (x < y)"
    by (rule gt_zero_compareTotals [OF x y])
  have t: "totalOf a = x" "totalOf b = y"
    by (simp_all add: totalOf_Fin x y)
  show ?case
  proof (cases "x < y")
    case True
    have "sorted_wrt (\<lambda>a b. totalOf b \<le> totalOf a) (insertEntry a bs)"
      using Cons by simp
    with True Cons.prems(3) show ?thesis
      by (auto simp: g t set_insertEntry)
  next
    case False
    with Cons.prems(3) show ?thesis
      by (fastforce simp: g t)
  qed
qed

lemma finite_sortEntries:
  "(\<forall>b \<in> set (sortEntries xs). P b) = (\<forall>b \<in> set xs. P b)"
  by (metis mset_sortEntries set_mset_mset)

lemma sorted_sortEntries:
  "\<forall>b \<in> set xs. \<exists>r. snd b = Num (Fin r) \<Longrightarrow>
     sorted_wrt (\<lambda>a b. totalOf b \<le> totalOf a) (sortEntries xs)"
proof (induction xs)
  case Nil
  show ?case by (simp add: sortEntries_def)
next
  case (Cons x xs)
  have s: "sortEntries (x # xs) = insertEntry x (sortEntries xs)"
    by (simp add: sortEntries_def)
  show ?case
    unfolding s
  proof (rule sorted_insertEntry)
    show "\<exists>r. snd x = Num (Fin r)" using Cons.prems by simp
    show "\<forall>b \<in> set (sortEntries xs). \<exists>r. snd b = Num (Fin r)"
      using Cons.prems by (simp add: finite_sortEntries)
    show "sorted_wrt (\<lambda>a b. totalOf b \<le> totalOf a) (sortEntries xs)"
      using Cons by simp
  qed
qed

text \<open>The sort is stable: entries of equal total keep the order they had.\<close>

lemma filter_insertEntry:
  assumes "\<exists>r. snd a = Num (Fin r)" and "\<forall>b \<in> set bs. \<exists>r. snd b = Num (Fin r)"
  shows "filter (\<lambda>e. totalOf e = v) (insertEntry a bs) =
           (if totalOf a = v then a # filter (\<lambda>e. totalOf e = v) bs
            else filter (\<lambda>e. totalOf e = v) bs)"
  using assms
proof (induction bs)
  case Nil
  show ?case by simp
next
  case (Cons b bs)
  from Cons.prems obtain x y where x: "snd a = Num (Fin x)" and y: "snd b = Num (Fin y)"
    by auto
  have g: "gt_zero (compareTotals a b) = (x < y)"
    by (rule gt_zero_compareTotals [OF x y])
  have t: "totalOf a = x" "totalOf b = y"
    by (simp_all add: totalOf_Fin x y)
  have ih: "filter (\<lambda>e. totalOf e = v) (insertEntry a bs) =
           (if totalOf a = v then a # filter (\<lambda>e. totalOf e = v) bs
            else filter (\<lambda>e. totalOf e = v) bs)"
    using Cons by simp
  show ?case
    by (cases "x < y") (auto simp: g t ih)
qed

lemma stable_sortEntries:
  "\<forall>b \<in> set xs. \<exists>r. snd b = Num (Fin r) \<Longrightarrow>
     filter (\<lambda>e. totalOf e = v) (sortEntries xs) = filter (\<lambda>e. totalOf e = v) xs"
proof (induction xs)
  case Nil
  show ?case by (simp add: sortEntries_def)
next
  case (Cons x xs)
  have s: "sortEntries (x # xs) = insertEntry x (sortEntries xs)"
    by (simp add: sortEntries_def)
  have "filter (\<lambda>e. totalOf e = v) (insertEntry x (sortEntries xs)) =
           (if totalOf x = v then x # filter (\<lambda>e. totalOf e = v) (sortEntries xs)
            else filter (\<lambda>e. totalOf e = v) (sortEntries xs))"
    using Cons.prems by (intro filter_insertEntry) (simp_all add: finite_sortEntries)
  with Cons show ?case
    by (simp add: s)
qed


lemma foldl_totals:
  "\<forall>b \<in> set xs. \<exists>r. snd b = Num (Fin r) \<Longrightarrow>
     foldl (\<lambda>acc entry. js_add acc (toNumber (snd entry))) (Fin s) xs
       = Fin (s + sum_list (map totalOf xs))"
proof (induction xs arbitrary: s)
  case Nil
  show ?case by simp
next
  case (Cons x xs)
  from Cons.prems obtain r where r: "snd x = Num (Fin r)" by auto
  have "foldl (\<lambda>acc entry. js_add acc (toNumber (snd entry))) (Fin (s + r)) xs
       = Fin (s + r + sum_list (map totalOf xs))"
    using Cons by simp
  then show ?case
    by (simp add: r totalOf_Fin [OF r] add.assoc)
qed

lemma sumTotals_finite:
  "\<forall>b \<in> set xs. \<exists>r. snd b = Num (Fin r) \<Longrightarrow> sumTotals xs = Fin (sum_list (map totalOf xs))"
  by (simp add: sumTotals_def foldl_totals)

lemma foldl_amounts:
  "plainRecords es \<Longrightarrow>
     foldl (\<lambda>acc expense. js_add acc (amount_col expense)) (Fin s) es
       = Fin (s + sum_list (map realAmount es))"
proof (induction es arbitrary: s)
  case Nil
  show ?case by simp
next
  case (Cons e es)
  from Cons.prems obtain r where r: "amount_col e = Fin r" and p: "plainRecords es"
    by (auto simp: plainRecords_def)
  from Cons.IH [OF p, of "s + r"] show ?case
    by (simp add: r realAmount_def add.assoc)
qed

lemma overallTotal_plain: "plainRecords es \<Longrightarrow> overallTotal es = Fin (sum_list (map realAmount es))"
  by (simp add: overallTotal_def foldl_amounts)

lemma catSum_Cons:
  "catSum k (e # es) = (if category_col e = k then realAmount e else 0) + catSum k es"
  by (simp add: catSum_def)

lemma sum_catSum:
  "finite K \<Longrightarrow> category_col ` set es \<subseteq> K \<Longrightarrow>
     (\<Sum>k\<in>K. catSum k es) = sum_list (map realAmount es)"
proof (induction es)
  case Nil
  show ?case by (simp add: catSum_def)
next
  case (Cons e es)
  have "(\<Sum>k\<in>K. catSum k (e # es))
          = (\<Sum>k\<in>K. if category_col e = k then realAmount e else 0) + (\<Sum>k\<in>K. catSum k es)"
    by (simp add: catSum_Cons sum.distrib)
  also have "(\<Sum>k\<in>K. if category_col e = k then realAmount e else 0) = realAmount e"
    using Cons.prems by (simp add: sum.delta')
  also have "(\<Sum>k\<in>K. catSum k es) = sum_list (map realAmount es)"
    using Cons by simp
  finally show ?case by simp
qed

text \<open>
  For plain records the claims C8 and C9 hold: one entry per category, each with the sum
  of the amounts of its records, totals descending, entries of equal total in the order of
  \<open>Object.keys\<close>, and the totals add up to \<open>overallTotal\<close>.
\<close>

lemma categoryTotals_entries:
  assumes "plainRecords es"
  shows "categoryTotals es
           = sortEntries (map (\<lambda>k. (k, Num (Fin (catSum k es)))) (objectKeys (categoryMap es)))"
proof -
  let ?m = "categoryMap es"
  from categoryMap_plain [OF assms] have
    ks: "set (map fst ?m) = category_col ` set es" and
    vs: "\<forall>k \<in> category_col ` set es. map_of ?m k = Some (Num (Fin (catSum k es)))"
    by blast+
  have "set (objectKeys ?m) = category_col ` set es"
    using ks by (metis mset_objectKeys set_mset_mset)
  then have "\<forall>k \<in> set (objectKeys ?m). getProp ?m k = Num (Fin (catSum k es))"
    using vs by (simp add: getProp_def)
  then have "map (\<lambda>k. (k, getProp ?m k)) (objectKeys ?m)
               = map (\<lambda>k. (k, Num (Fin (catSum k es)))) (objectKeys ?m)"
    by simp
  then show ?thesis
    unfolding categoryTotals_def Let_def by (rule arg_cong [where f = sortEntries])
qed

lemma categoryTotals_plain:
  assumes "plainRecords es"
  shows "distinct (map fst (categoryTotals es))"
    and "set (map fst (categoryTotals es)) = category_col ` set es"
    and "\<forall>x \<in> set (categoryTotals es). snd x = Num (Fin (catSum (fst x) es))"
    and "sorted_wrt (\<lambda>a b. totalOf b \<le> totalOf a) (categoryTotals es)"
    and "filter (\<lambda>e. totalOf e = v) (categoryTotals es)
           = filter (\<lambda>e. totalOf e = v)
               (map (\<lambda>k. (k, Num (Fin (catSum k es)))) (objectKeys (categoryMap es)))"
    and "sumTotals (categoryTotals es) = overallTotal es"
proof -
  let ?m = "categoryMap es"
  let ?xs = "map (\<lambda>k. (k, Num (Fin (catSum k es)))) (objectKeys ?m)"
  note ct = categoryTotals_entries [OF assms]
  from categoryMap_plain [OF assms] have
    d: "distinct (map fst ?m)" and
    ks: "set (map fst ?m) = category_col ` set es"
    by blast+
  have fin: "\<forall>b \<in> set ?xs. \<exists>r. snd b = Num (Fin r)"
    by simp
  have fst_xs: "map fst ?xs = objectKeys ?m"
    by (simp add: comp_def)
  have keys: "mset (map fst (categoryTotals es)) = mset (map fst ?m)"
  proof -
    have "mset (map fst (categoryTotals es)) = image_mset fst (mset (sortEntries ?xs))"
      by (simp add: ct)
    also have "\<dots> = mset (map fst ?xs)"
      by (simp only: mset_sortEntries mset_map)
    finally show ?thesis
      by (simp only: fst_xs mset_objectKeys)
  qed
  show c1: "distinct (map fst (categoryTotals es))"
    using d keys by (metis mset_eq_imp_distinct_iff)
  show c2: "set (map fst (categoryTotals es)) = category_col ` set es"
    using ks keys by (metis set_mset_mset)
  show c3: "\<forall>x \<in> set (categoryTotals es). snd x = Num (Fin (catSum (fst x) es))"
  proof -
    have "set (categoryTotals es) = set ?xs"
      unfolding ct by (metis mset_sortEntries set_mset_mset)
    then show ?thesis by auto
  qed
  show "sorted_wrt (\<lambda>a b. totalOf b \<le> totalOf a) (categoryTotals es)"
    unfolding ct by (rule sorted_sortEntries [OF fin])
  show "filter (\<lambda>e. totalOf e = v) (categoryTotals es) = filter (\<lambda>e. totalOf e = v) ?xs"
    unfolding ct by (rule stable_sortEntries [OF fin])
  show "sumTotals (categoryTotals es) = overallTotal es"
  proof -
    have fin': "\<forall>b \<in> set (categoryTotals es). \<exists>r. snd b = Num (Fin r)"
      using c3 by blast
    have tot: "map totalOf (categoryTotals es) = map (\<lambda>k. catSum k es) (map fst (categoryTotals es))"
      using c3 by (auto simp: totalOf_Fin)
    have "sum_list (map totalOf (categoryTotals es))
            = (\<Sum>k\<in>set (map fst (categoryTotals es)). catSum k es)"
      unfolding tot using c1 by (rule sum_list_distinct_conv_sum_set)
    also have "\<dots> = sum_list (map realAmount es)"
      unfolding c2 by (rule sum_catSum) simp_all
    finally show ?thesis
      by (simp add: sumTotals_finite [OF fin'] overallTotal_plain [OF assms])
  qed
qed


text \<open>
  C8. The per-category totals should add up to \<open>overallTotal\<close> for every record set.
  \<open>categoryMap\<close> is an object literal used as a dictionary, so a category that is the
  name of a member of \<open>Object.prototype\<close> reads that member instead of \<open>undefined\<close>.
  For the single record of amount 5 and category \<open>__proto__\<close> the overall total is 5,
  while no category entry is made at all and the per-category totals add up to 0. For a
  record of category \<open>constructor\<close> the entry's total is a string, not a number. The
  screen gets there by itself: adding 5 under the category \<open>__proto__\<close> to an empty
  table leaves it showing a total of 5 and no category.
\<close>

theorem category_totals_miss_overall:
  "overallTotal [sampleRow 1 5 ''__proto__'' ''2024-01-05''] = Fin 5
   \<and> categoryTotals [sampleRow 1 5 ''__proto__'' ''2024-01-05''] = []
   \<and> sumTotals (categoryTotals [sampleRow 1 5 ''__proto__'' ''2024-01-05'']) = Fin 0
   \<and> overallTotal [sampleRow 1 5 ''constructor'' ''2024-01-05''] = Fin 5
   \<and> categoryTotals [sampleRow 1 5 ''constructor'' ''2024-01-05''] = [(''constructor'', Str)]
   \<and> overallTotal (expenses (snd (addExpense utcNoonClock (formState [] ''5'' ''__proto__'' []))))
       = Fin 5
   \<and> categoryTotals (expenses (snd (addExpense utcNoonClock (formState [] ''5'' ''__proto__'' []))))
       = []"
  by code_simp

text \<open>
  C9. \<open>categoryTotals\<close> should have one entry per distinct category, holding the sum of
  the amounts of that category, in descending order of the totals. With the records
  (5, \<open>constructor\<close>), (3, \<open>Books\<close>), (2, \<open>constructor\<close>) the entry for
  \<open>constructor\<close> holds a string instead of the sum 7; with the records
  (5, \<open>__proto__\<close>), (3, \<open>Books\<close>) the category \<open>__proto__\<close> has no entry.
\<close>

theorem category_totals_inherited_names:
  "categoryTotals [sampleRow 1 5 ''constructor'' ''2024-01-05'', sampleRow 2 3 ''Books'' ''2024-01-05'',
                   sampleRow 3 2 ''constructor'' ''2024-01-06'']
     = [(''constructor'', Str), (''Books'', Num (Fin 3))]
   \<and> catSum ''constructor'' [sampleRow 1 5 ''constructor'' ''2024-01-05'', sampleRow 2 3 ''Books'' ''2024-01-05'',
                   sampleRow 3 2 ''constructor'' ''2024-01-06''] = 7
   \<and> categoryTotals [sampleRow 1 5 ''__proto__'' ''2024-01-05'', sampleRow 2 3 ''Books'' ''2024-01-05'']
     = [(''Books'', Num (Fin 3))]"
  by code_simp


end
